theory Spec2Isabelle
  imports Main "HOL-Library.AList" "HOL-Library.Multiset"
begin

section \<open>JavaScript values\<close>

text \<open>
  The editor (\<^verbatim>\<open>src/unnamed/part_000\<close>, lines 1--731, the variant with the sidebar
  and the pack patcher) works on values that come out of \<^verbatim>\<open>JSON.parse\<close>: the schema
  \<^verbatim>\<open>config.variables\<close>, the example document, and the session snapshot.  A value is
  a tree of the following shape.  Objects are association lists in own-property order
  (the order of \<^verbatim>\<open>Object.keys\<close>); a well-formed object has distinct keys.

  Scope of the model: numbers are the integer-valued numbers (no fractions, no NaN, no
  infinities, no negative zero), rendered in plain decimal; strings are sequences of
  8-bit code units; property names are ordinary names, that is, none of the members of
  \<^verbatim>\<open>Object.prototype\<close> (in particular not \<^verbatim>\<open>__proto__\<close>), so that reading a property
  an object does not own gives \<^verbatim>\<open>undefined\<close> and assigning one creates it.
\<close>

datatype jsval =
    JUndefined
  | JNull
  | JBool bool
  | JNum int
  | JStr string
  | JArr "jsval list"
  | JObj "(string \<times> jsval) list"

text \<open>
  What ends a step early: the two exceptions the code can raise on these values, any
  exception of \<^verbatim>\<open>sessionStorage\<close>, and a mark for the one step the model does not
  follow (an assignment to a property of a top-level array, see \<open>write_prop\<close> below).
\<close>

datatype error = TypeError | RangeError | StorageError | Unmodelled

text \<open>\<^verbatim>\<open>ToBoolean\<close>: what \<^verbatim>\<open>if(x)\<close>, \<^verbatim>\<open>!x\<close>, \<^verbatim>\<open>x && y\<close> and \<^verbatim>\<open>x || y\<close> test.\<close>

fun truthy :: "jsval \<Rightarrow> bool" where
  "truthy JUndefined = False"
| "truthy JNull = False"
| "truthy (JBool b) = b"
| "truthy (JNum n) = (n \<noteq> 0)"
| "truthy (JStr s) = (s \<noteq> [])"
| "truthy (JArr xs) = True"
| "truthy (JObj ps) = True"

text \<open>\<^verbatim>\<open>a || b\<close>.\<close>

definition js_or :: "jsval \<Rightarrow> jsval \<Rightarrow> jsval" where
  "js_or a b = (if truthy a then a else b)"

subsection \<open>Decimal numerals\<close>

definition digit_char :: "nat \<Rightarrow> char" where
  "digit_char d = char_of (48 + d)"

function show_nat :: "nat \<Rightarrow> string" where
  "show_nat n = (if n < 10 then [digit_char n] else show_nat (n div 10) @ [digit_char (n mod 10)])"
  by pat_completeness auto
termination
  by (relation "measure id") auto

declare show_nat.simps [simp del]

text \<open>\<^verbatim>\<open>String(n)\<close> for an integer-valued number.\<close>

definition show_int :: "int \<Rightarrow> string" where
  "show_int i = (if i < 0 then CHR ''-'' # show_nat (nat (- i)) else show_nat (nat i))"

definition is_digit :: "char \<Rightarrow> bool" where
  "is_digit c = (48 \<le> (of_char c :: nat) \<and> (of_char c :: nat) \<le> 57)"

text \<open>
  \<^verbatim>\<open>Number(s)\<close> for a string of decimal digits (the capture of \<^verbatim>\<open>\d+\<close>): the
  integer it denotes, which is the number the program gets as long as it is below
  \<open>2^53\<close>.
\<close>

definition nat_of_digits :: "string \<Rightarrow> nat" where
  "nat_of_digits s = foldl (\<lambda>acc c. 10 * acc + (of_char c - 48)) 0 s"

subsection \<open>Own properties\<close>

text \<open>The names of the index properties of an array or a string of length \<open>n\<close>.\<close>

definition index_keys :: "nat \<Rightarrow> string list" where
  "index_keys n = map show_nat [0..<n]"

text \<open>
  The enumerable own properties, in the order of \<^verbatim>\<open>Object.keys\<close>: the members of an
  object, the elements of an array, the characters of a string; nothing for the other
  primitives.
\<close>

fun own_props :: "jsval \<Rightarrow> (string \<times> jsval) list" where
  "own_props (JObj ps) = ps"
| "own_props (JArr xs) = zip (index_keys (length xs)) xs"
| "own_props (JStr s) = zip (index_keys (length s)) (map (\<lambda>c. JStr [c]) s)"
| "own_props v = []"

text \<open>\<^verbatim>\<open>Object.keys(v)\<close> for a truthy \<open>v\<close>.\<close>

definition own_keys :: "jsval \<Rightarrow> string list" where
  "own_keys v = map fst (own_props v)"

text \<open>Arrays and strings also own the non-enumerable \<^verbatim>\<open>length\<close>.\<close>

fun all_own :: "jsval \<Rightarrow> (string \<times> jsval) list" where
  "all_own (JArr xs) = own_props (JArr xs) @ [(''length'', JNum (int (length xs)))]"
| "all_own (JStr s) = own_props (JStr s) @ [(''length'', JNum (int (length s)))]"
| "all_own v = own_props v"

text \<open>\<^verbatim>\<open>Object.prototype.hasOwnProperty.call(v, k)\<close> for a truthy \<open>v\<close>.\<close>

definition has_own :: "jsval \<Rightarrow> string \<Rightarrow> bool" where
  "has_own v k = (map_of (all_own v) k \<noteq> None)"

text \<open>\<^verbatim>\<open>v[k]\<close> and \<^verbatim>\<open>v.k\<close> for a truthy \<open>v\<close>: the own property, else \<^verbatim>\<open>undefined\<close>.\<close>

definition get_prop :: "jsval \<Rightarrow> string \<Rightarrow> jsval" where
  "get_prop v k = (case map_of (all_own v) k of Some x \<Rightarrow> x | None \<Rightarrow> JUndefined)"

text \<open>
  \<^verbatim>\<open>out[k] = v\<close> on the property list of a plain object: an existing property keeps
  its place, a new one goes last.  (An engine lists the names that are array indices
  first; the loops below add the keys in the order of \<^verbatim>\<open>Object.keys\<close> of the schema,
  which already has them first.)
\<close>

definition obj_set :: "(string \<times> jsval) list \<Rightarrow> string \<Rightarrow> jsval \<Rightarrow> (string \<times> jsval) list" where
  "obj_set ps k v = AList.update k v ps"

subsection \<open>Conversion to text\<close>

text \<open>\<^verbatim>\<open>xs.join(sep)\<close> on strings.\<close>

fun join :: "string \<Rightarrow> string list \<Rightarrow> string" where
  "join sep [] = []"
| "join sep [x] = x"
| "join sep (x # y # ys) = x @ sep @ join sep (y # ys)"

text \<open>
  \<^verbatim>\<open>String(v)\<close>.  An array is the comma-joined text of its elements, where
  \<^verbatim>\<open>null\<close> and \<^verbatim>\<open>undefined\<close> elements give the empty text; an object is
  \<^verbatim>\<open>[object Object]\<close>.
\<close>

fun js_String :: "jsval \<Rightarrow> string" where
  "js_String JUndefined = ''undefined''"
| "js_String JNull = ''null''"
| "js_String (JBool b) = (if b then ''true'' else ''false'')"
| "js_String (JNum n) = show_int n"
| "js_String (JStr s) = s"
| "js_String (JArr xs) =
     join '','' (map (\<lambda>x. if x = JUndefined \<or> x = JNull then [] else js_String x) xs)"
| "js_String (JObj ps) = ''[object Object]''"

section \<open>Descriptor model\<close>

subsection \<open>\<^verbatim>\<open>getChoices\<close> (lines 81--96)\<close>

text \<open>
  \<^verbatim>\<open>k.match(/^choice_(\d+)$/)\<close>: the captured digits, when the key is
  \<^verbatim>\<open>choice_\<close> followed by one or more decimal digits and nothing else.
\<close>

definition match_choice :: "string \<Rightarrow> string option" where
  "match_choice k =
     (if take 7 k = ''choice_'' \<and> drop 7 k \<noteq> [] \<and> list_all is_digit (drop 7 k)
      then Some (drop 7 k) else None)"

text \<open>
  The body of the \<^verbatim>\<open>forEach\<close> over \<^verbatim>\<open>Object.keys(desc)\<close>: one record
  \<^verbatim>\<open>{idx, val}\<close> per matching key, in key order.
\<close>

definition numbered_choices :: "jsval \<Rightarrow> (nat \<times> string) list" where
  "numbered_choices desc =
     concat (map (\<lambda>k. case match_choice k of
                          Some d \<Rightarrow> [(nat_of_digits d, js_String (get_prop desc k))]
                        | None \<Rightarrow> [])
                 (own_keys desc))"

text \<open>
  \<^verbatim>\<open>choices.sort((a,b)=>a.idx-b.idx)\<close> is a stable sort on \<^verbatim>\<open>idx\<close>;
  \<^const>\<open>sort_key\<close> is the stable insertion sort.
\<close>

definition getChoices :: "jsval \<Rightarrow> string list" where
  "getChoices desc =
     (if \<not> truthy desc then []
      else case get_prop desc ''choices'' of
             JArr xs \<Rightarrow> map js_String xs
           | _ \<Rightarrow> (let choices = numbered_choices desc
                   in if choices \<noteq> [] then map snd (sort_key fst choices) else []))"

subsection \<open>\<^verbatim>\<open>defaultFor\<close> (lines 64--76)\<close>

text \<open>
  \<^verbatim>\<open>Array(c).fill(0)\<close>: for a number \<open>c\<close> an array of \<open>c\<close> zeros, or a
  \<^verbatim>\<open>RangeError\<close> when \<open>c\<close> is not an array length (negative, or \<open>2^32\<close> and
  more); for any other \<open>c\<close> the one-element array \<^verbatim>\<open>[c]\<close>, filled with \<open>0\<close>.
\<close>

definition Array_fill0 :: "jsval \<Rightarrow> error + jsval" where
  "Array_fill0 c =
     (case c of
        JNum n \<Rightarrow> if 0 \<le> n \<and> n < 4294967296 then Inr (JArr (replicate (nat n) (JNum 0)))
                  else Inl RangeError
      | _ \<Rightarrow> Inr (JArr [JNum 0]))"

text \<open>
  \<^verbatim>\<open>structuredClone(v)\<close>: a deep copy.  On values without identity the copy is the
  value; the store of Section ``Shared arrays'' gives the copy cells of its own.
\<close>

definition structuredClone :: "jsval \<Rightarrow> jsval" where
  "structuredClone v = v"

definition defaultFor :: "jsval \<Rightarrow> error + jsval" where
  "defaultFor desc =
     (if \<not> truthy desc then Inr JNull
      else if get_prop desc ''default'' \<noteq> JUndefined
        then Inr (structuredClone (get_prop desc ''default''))
      else if get_prop desc ''type'' = JStr ''boolean'' then Inr (JBool False)
      else if get_prop desc ''type'' = JStr ''number'' then Inr (JNum 0)
      else if get_prop desc ''type'' = JStr ''number_array''
        then Array_fill0 (js_or (get_prop desc ''count'') (JNum 2))
      else if get_prop desc ''type'' = JStr ''string'' then Inr (JStr [])
      else if get_prop desc ''type'' = JStr ''choice''
        then (let choices = getChoices desc
              in Inr (if choices \<noteq> [] then JStr (hd choices) else JStr []))
      else Inr JNull)"

section \<open>Reconciliation: \<^verbatim>\<open>buildSanitizedFromSource\<close> (lines 458--471)\<close>

text \<open>\<^verbatim>\<open>desc && desc.type === 'section'\<close>.\<close>

definition is_section :: "jsval \<Rightarrow> bool" where
  "is_section desc = (truthy desc \<and> get_prop desc ''type'' = JStr ''section'')"

text \<open>
  The \<^verbatim>\<open>forEach\<close> over \<^verbatim>\<open>Object.keys(vars)\<close>, with \<open>out\<close> the object built so
  far.  An exception of \<^verbatim>\<open>defaultFor\<close> leaves the loop and the function.
\<close>

fun sanitize_loop ::
  "jsval \<Rightarrow> jsval \<Rightarrow> string list \<Rightarrow> (string \<times> jsval) list \<Rightarrow> error + (string \<times> jsval) list"
where
  "sanitize_loop vars source [] out = Inr out"
| "sanitize_loop vars source (k # ks) out =
     (if is_section (get_prop vars k) then sanitize_loop vars source ks out
      else if truthy source \<and> has_own source k
        then sanitize_loop vars source ks (obj_set out k (get_prop source k))
      else case defaultFor (get_prop vars k) of
             Inl e \<Rightarrow> Inl e
           | Inr v \<Rightarrow> sanitize_loop vars source ks (obj_set out k v))"

text \<open>
  \<open>cv\<close> is \<^verbatim>\<open>config.variables\<close> (\<^const>\<open>JUndefined\<close> when the configuration has
  none), \<open>source\<close> the source document or \<^verbatim>\<open>null\<close>.
\<close>

definition config_vars :: "jsval \<Rightarrow> jsval" where
  "config_vars cv = js_or cv (JObj [])"

definition buildSanitizedFromSource :: "jsval \<Rightarrow> jsval \<Rightarrow> error + jsval" where
  "buildSanitizedFromSource cv source =
     (case sanitize_loop (config_vars cv) source (own_keys (config_vars cv)) [] of
        Inl e \<Rightarrow> Inl e
      | Inr out \<Rightarrow> Inr (JObj out))"

text \<open>
  The value the loop body assigns to \<^verbatim>\<open>out[k]\<close> for a key that is not a section:
  the source's own property, else the default.
\<close>

definition source_value :: "jsval \<Rightarrow> jsval \<Rightarrow> string \<Rightarrow> error + jsval" where
  "source_value vars source k =
     (if truthy source \<and> has_own source k then Inr (get_prop source k)
      else defaultFor (get_prop vars k))"


subsection \<open>A small schema for the examples\<close>

text \<open>
  \<^verbatim>\<open>{ a: {type: "number"}, s: {type: "section"}, c: {type: "choice", choice_1: "u"} }\<close>
\<close>

definition ex_schema :: jsval where
  "ex_schema = JObj [(''a'', JObj [(''type'', JStr ''number'')]),
                     (''s'', JObj [(''type'', JStr ''section'')]),
                     (''c'', JObj [(''type'', JStr ''choice''), (''choice_1'', JStr ''u'')])]"

section \<open>Serializer\<close>

subsection \<open>\<^verbatim>\<open>JSON.stringify\<close>\<close>

text \<open>
  \<^verbatim>\<open>QuoteJSONString\<close>: the quote, the backslash and the control characters are
  escaped, every other code unit stands for itself.
\<close>

definition hex_digit :: "nat \<Rightarrow> char" where
  "hex_digit d = (if d < 10 then char_of (48 + d) else char_of (87 + d))"

definition json_escape :: "char \<Rightarrow> string" where
  "json_escape c =
     (if c = CHR 0x22 then [CHR 0x5C, CHR 0x22]
      else if c = CHR 0x5C then [CHR 0x5C, CHR 0x5C]
      else if c = CHR 0x08 then [CHR 0x5C, CHR ''b'']
      else if c = CHR 0x0C then [CHR 0x5C, CHR ''f'']
      else if c = CHR 0x0A then [CHR 0x5C, CHR ''n'']
      else if c = CHR 0x0D then [CHR 0x5C, CHR ''r'']
      else if c = CHR 0x09 then [CHR 0x5C, CHR ''t'']
      else if (of_char c :: nat) < 32
        then [CHR 0x5C, CHR ''u'', CHR ''0'', CHR ''0'',
              hex_digit ((of_char c :: nat) div 16), hex_digit ((of_char c :: nat) mod 16)]
      else [c])"

definition quote_json :: "string \<Rightarrow> string" where
  "quote_json s = CHR 0x22 # concat (map json_escape s) @ [CHR 0x22]"

text \<open>
  \<^verbatim>\<open>JSON.stringify(v, null, 2)\<close> at the indentation \<open>ind\<close>; \<^const>\<open>None\<close> is the
  result \<^verbatim>\<open>undefined\<close>.  An \<^verbatim>\<open>undefined\<close> element of an array is written
  \<^verbatim>\<open>null\<close>, an \<^verbatim>\<open>undefined\<close> member of an object is left out.
\<close>

fun stringify_indent :: "string \<Rightarrow> jsval \<Rightarrow> string option" where
  "stringify_indent ind JUndefined = None"
| "stringify_indent ind JNull = Some ''null''"
| "stringify_indent ind (JBool b) = Some (if b then ''true'' else ''false'')"
| "stringify_indent ind (JNum n) = Some (show_int n)"
| "stringify_indent ind (JStr s) = Some (quote_json s)"
| "stringify_indent ind (JArr xs) =
     (if xs = [] then Some ''[]''
      else Some (''['' @ [CHR 0x0A] @ (ind @ ''  '') @
                 join ('','' @ [CHR 0x0A] @ (ind @ ''  ''))
                   (map (\<lambda>x. case stringify_indent (ind @ ''  '') x of
                                None \<Rightarrow> ''null'' | Some t \<Rightarrow> t) xs) @
                 [CHR 0x0A] @ ind @ '']''))"
| "stringify_indent ind (JObj ps) =
     (let members = concat (map (\<lambda>p. case stringify_indent (ind @ ''  '') (snd p) of
                                       None \<Rightarrow> []
                                     | Some t \<Rightarrow> [quote_json (fst p) @ '': '' @ t]) ps)
      in if members = [] then Some ''{}''
         else Some (''{'' @ [CHR 0x0A] @ (ind @ ''  '') @
                    join ('','' @ [CHR 0x0A] @ (ind @ ''  '')) members @
                    [CHR 0x0A] @ ind @ ''}''))"

text \<open>\<^verbatim>\<open>JSON.stringify(v)\<close>, the compact form that is written to the session storage.\<close>

fun stringify_compact :: "jsval \<Rightarrow> string option" where
  "stringify_compact JUndefined = None"
| "stringify_compact JNull = Some ''null''"
| "stringify_compact (JBool b) = Some (if b then ''true'' else ''false'')"
| "stringify_compact (JNum n) = Some (show_int n)"
| "stringify_compact (JStr s) = Some (quote_json s)"
| "stringify_compact (JArr xs) =
     Some (''['' @ join '',''
                     (map (\<lambda>x. case stringify_compact x of
                                  None \<Rightarrow> ''null'' | Some t \<Rightarrow> t) xs) @ '']'')"
| "stringify_compact (JObj ps) =
     Some (''{'' @ join '',''
                     (concat (map (\<lambda>p. case stringify_compact (snd p) of
                                          None \<Rightarrow> []
                                        | Some t \<Rightarrow> [quote_json (fst p) @ '':'' @ t]) ps)) @ ''}'')"

subsection \<open>\<^verbatim>\<open>prettyPrintJSON\<close> (lines 515--530)\<close>

text \<open>
  The classes of the pattern \<^verbatim>\<open>/\[\n(\s*)([^\[\]\{\}]*?)\n\s*\]/gs\<close>: \<^verbatim>\<open>\s\<close> (among
  the 8-bit code units: tab, line feed, vertical tab, form feed, carriage return,
  space, no-break space) and the brackets that the second group excludes.
\<close>

definition is_space :: "char \<Rightarrow> bool" where
  "is_space c = ((of_char c :: nat) \<in> {9, 10, 11, 12, 13, 32, 160})"

definition is_bracket :: "char \<Rightarrow> bool" where
  "is_bracket c = (c = CHR ''['' \<or> c = CHR '']'' \<or> c = CHR ''{'' \<or> c = CHR ''}'')"

text \<open>
  The tail \<^verbatim>\<open>\n\s*\]\<close> of the pattern at the start of \<open>t\<close>: the number of characters
  it takes.  The greedy \<^verbatim>\<open>\s*\<close> never gives back a character, since \<^verbatim>\<open>]\<close> is no
  space.
\<close>

definition match_close :: "string \<Rightarrow> nat option" where
  "match_close t =
     (case t of
        [] \<Rightarrow> None
      | c # r \<Rightarrow>
          if c = CHR 0x0A
          then (case dropWhile is_space r of
                  [] \<Rightarrow> None
                | d # r' \<Rightarrow> if d = CHR '']'' then Some (length t - length r') else None)
          else None)"

text \<open>
  The lazy group \<^verbatim>\<open>([^\[\]\{\}]*?)\<close> followed by the tail: the shortest run \<open>acc\<close>
  of characters that are no brackets after which the tail matches.  The result is the
  captured text and the number of characters taken.
\<close>

fun match_inner :: "string \<Rightarrow> string \<Rightarrow> (string \<times> nat) option" where
  "match_inner acc t =
     (case match_close t of
        Some n \<Rightarrow> Some (acc, length acc + n)
      | None \<Rightarrow>
          (case t of
             [] \<Rightarrow> None
           | c # t' \<Rightarrow> if is_bracket c then None else match_inner (acc @ [c]) t'))"

text \<open>
  The greedy group \<^verbatim>\<open>(\s*)\<close>: the longest run of spaces first, one space fewer on
  each backtracking step.
\<close>

fun match_indent :: "nat \<Rightarrow> string \<Rightarrow> (string \<times> nat) option" where
  "match_indent 0 t = match_inner [] t"
| "match_indent (Suc n) t =
     (case match_inner [] (drop (Suc n) t) of
        Some (inner, m) \<Rightarrow> Some (inner, Suc n + m)
      | None \<Rightarrow> match_indent n t)"

text \<open>The whole pattern at the start of \<open>t\<close>: the second group and the length of the match.\<close>

definition match_array :: "string \<Rightarrow> (string \<times> nat) option" where
  "match_array t =
     (case t of
        c # d # r \<Rightarrow>
          if c = CHR ''['' \<and> d = CHR 0x0A
          then (case match_indent (length (takeWhile is_space r)) r of
                  Some (inner, m) \<Rightarrow> Some (inner, 2 + m)
                | None \<Rightarrow> None)
          else None
      | _ \<Rightarrow> None)"

text \<open>
  \<^verbatim>\<open>s.replace(/a\s*/g, new)\<close> for a character \<open>a\<close>: used with the line feed
  (\<^verbatim>\<open>/\n\s*/g\<close> to a space) and with the comma (\<^verbatim>\<open>/,\s*/g\<close> to comma and space).
\<close>

function replace_after :: "char \<Rightarrow> string \<Rightarrow> string \<Rightarrow> string" where
  "replace_after a new [] = []"
| "replace_after a new (c # t) =
     (if c = a then new @ replace_after a new (dropWhile is_space t)
      else c # replace_after a new t)"
  by pat_completeness auto
termination
  by (relation "measure (\<lambda>(a, new, t). length t)")
     (auto simp: less_Suc_eq_le length_dropWhile_le)

text \<open>\<^verbatim>\<open>s.trim()\<close>.\<close>

definition trim :: "string \<Rightarrow> string" where
  "trim s = rev (dropWhile is_space (rev (dropWhile is_space s)))"

text \<open>The replacement callback, applied to the second group.\<close>

definition collapse_array :: "string \<Rightarrow> string" where
  "collapse_array inner =
     (let oneLine = trim (replace_after CHR '','' '', '' (replace_after CHR 0x0A '' '' inner))
      in if oneLine = [] then ''[]'' else ''['' @ oneLine @ '']'')"

text \<open>
  The global replacement, left to right: where the pattern matches, the match is
  replaced and the scan goes on behind it (\<open>skip\<close> counts the characters of the match
  still to pass); elsewhere the character is kept.
\<close>

fun replace_arrays :: "nat \<Rightarrow> string \<Rightarrow> string" where
  "replace_arrays skip [] = []"
| "replace_arrays (Suc n) (c # t) = replace_arrays n t"
| "replace_arrays 0 (c # t) =
     (case match_array (c # t) of
        Some (inner, m) \<Rightarrow> collapse_array inner @ replace_arrays (m - 1) t
      | None \<Rightarrow> c # replace_arrays 0 t)"

text \<open>
  \<^verbatim>\<open>JSON.stringify\<close> gives \<^verbatim>\<open>undefined\<close> for \<^verbatim>\<open>undefined\<close>, and
  \<^verbatim>\<open>s.replace\<close> then throws a \<^verbatim>\<open>TypeError\<close>.
\<close>

definition prettyPrintJSON :: "jsval \<Rightarrow> error + string" where
  "prettyPrintJSON obj =
     (case stringify_indent [] obj of
        None \<Rightarrow> Inl TypeError
      | Some s \<Rightarrow> Inr (replace_arrays 0 s))"

section \<open>Shared arrays: the store\<close>

text \<open>
  In the program an array or an object is a reference, and \<^verbatim>\<open>out[k] = source[k]\<close>
  copies the reference.  A \<^emph>\<open>slot\<close> is what a property of a top-level object holds: a
  primitive value, or the address of a cell of the store.  A cell holds the value of one
  array or object.  \<^verbatim>\<open>JSON.parse\<close> and \<^verbatim>\<open>structuredClone\<close> build trees, the program
  copies references from the top level of a document only and writes elements of
  top-level arrays only, so nothing below a cell is shared and a cell holds a plain
  value.
\<close>

datatype slot = Prim jsval | Ref nat

text \<open>
  A top-level value (\<^verbatim>\<open>variables\<close>, \<^verbatim>\<open>defaults\<close>, a source document): an object or
  an array of slots, or a primitive.
\<close>

datatype tval = TObj "(string \<times> slot) list" | TArr "slot list" | TPrim jsval

type_synonym store = "jsval list"

definition cell :: "store \<Rightarrow> nat \<Rightarrow> jsval" where
  "cell s a = (if a < length s then s ! a else JUndefined)"

fun slot_value :: "store \<Rightarrow> slot \<Rightarrow> jsval" where
  "slot_value s (Prim v) = v"
| "slot_value s (Ref a) = cell s a"

text \<open>The plain value of a top-level value: what \<^verbatim>\<open>JSON.stringify\<close> and a deep comparison see.\<close>

fun tval_value :: "store \<Rightarrow> tval \<Rightarrow> jsval" where
  "tval_value s (TObj ps) = JObj (map (\<lambda>p. (fst p, slot_value s (snd p))) ps)"
| "tval_value s (TArr xs) = JArr (map (slot_value s) xs)"
| "tval_value s (TPrim v) = v"

text \<open>A fresh value enters the store: an array or an object gets a new cell.\<close>

definition new_slot :: "store \<Rightarrow> jsval \<Rightarrow> store \<times> slot" where
  "new_slot s v =
     (case v of
        JArr xs \<Rightarrow> (s @ [v], Ref (length s))
      | JObj ps \<Rightarrow> (s @ [v], Ref (length s))
      | _ \<Rightarrow> (s, Prim v))"

fun new_slots :: "store \<Rightarrow> jsval list \<Rightarrow> store \<times> slot list" where
  "new_slots s [] = (s, [])"
| "new_slots s (v # vs) =
     (case new_slot s v of (s1, x) \<Rightarrow>
        (case new_slots s1 vs of (s2, xs) \<Rightarrow> (s2, x # xs)))"

fun new_props :: "store \<Rightarrow> (string \<times> jsval) list \<Rightarrow> store \<times> (string \<times> slot) list" where
  "new_props s [] = (s, [])"
| "new_props s (p # ps) =
     (case new_slot s (snd p) of (s1, x) \<Rightarrow>
        (case new_props s1 ps of (s2, xs) \<Rightarrow> (s2, (fst p, x) # xs)))"

text \<open>
  A fresh document (the result of \<^verbatim>\<open>JSON.parse\<close>, of \<^verbatim>\<open>r.json()\<close> or of
  \<^verbatim>\<open>structuredClone\<close>) as a top-level value, every array and object of its first level
  in a cell of its own.
\<close>

definition new_tval :: "store \<Rightarrow> jsval \<Rightarrow> store \<times> tval" where
  "new_tval s v =
     (case v of
        JObj ps \<Rightarrow> (case new_props s ps of (s1, qs) \<Rightarrow> (s1, TObj qs))
      | JArr xs \<Rightarrow> (case new_slots s xs of (s1, ys) \<Rightarrow> (s1, TArr ys))
      | _ \<Rightarrow> (s, TPrim v))"

subsection \<open>Properties of a top-level value\<close>

fun t_truthy :: "tval \<Rightarrow> bool" where
  "t_truthy (TPrim v) = truthy v"
| "t_truthy t = True"

fun t_all_own :: "tval \<Rightarrow> (string \<times> slot) list" where
  "t_all_own (TObj ps) = ps"
| "t_all_own (TArr xs) =
     zip (index_keys (length xs)) xs @ [(''length'', Prim (JNum (int (length xs))))]"
| "t_all_own (TPrim v) = map (\<lambda>p. (fst p, Prim (snd p))) (all_own v)"

definition t_has_own :: "tval \<Rightarrow> string \<Rightarrow> bool" where
  "t_has_own t k = (map_of (t_all_own t) k \<noteq> None)"

definition t_get :: "tval \<Rightarrow> string \<Rightarrow> slot" where
  "t_get t k = (case map_of (t_all_own t) k of Some x \<Rightarrow> x | None \<Rightarrow> Prim JUndefined)"

text \<open>\<^verbatim>\<open>t[k]\<close>, where \<open>t\<close> may be \<^verbatim>\<open>null\<close> or \<^verbatim>\<open>undefined\<close>: then a \<^verbatim>\<open>TypeError\<close>.\<close>

definition read_prop :: "tval \<Rightarrow> string \<Rightarrow> error + slot" where
  "read_prop t k =
     (if t = TPrim JNull \<or> t = TPrim JUndefined then Inl TypeError else Inr (t_get t k))"

text \<open>
  \<^verbatim>\<open>t[k] = x\<close>.  On an object the property is set; on \<^verbatim>\<open>null\<close> and
  \<^verbatim>\<open>undefined\<close> it is a \<^verbatim>\<open>TypeError\<close>; on another primitive nothing happens (the
  script is not in strict mode).  A property assigned to a top-level array (an element,
  its \<^verbatim>\<open>length\<close>, or a named property) leaves the model: \<^const>\<open>Unmodelled\<close> is not an
  exception of the program.
\<close>

definition write_prop :: "tval \<Rightarrow> string \<Rightarrow> slot \<Rightarrow> error + tval" where
  "write_prop t k x =
     (case t of
        TObj ps \<Rightarrow> Inr (TObj (AList.update k x ps))
      | TArr xs \<Rightarrow> Inl Unmodelled
      | TPrim v \<Rightarrow> if v = JNull \<or> v = JUndefined then Inl TypeError else Inr t)"

text \<open>
  A slot is in the store when its address is; a top-level value is when its slots are.
  \<^const>\<open>new_tval\<close> and the sanitizing loop keep this.
\<close>

definition slot_ok :: "store \<Rightarrow> slot \<Rightarrow> bool" where
  "slot_ok s x = (case x of Ref a \<Rightarrow> a < length s | Prim v \<Rightarrow> True)"

fun tval_ok :: "store \<Rightarrow> tval \<Rightarrow> bool" where
  "tval_ok s (TObj ps) = list_all (\<lambda>p. slot_ok s (snd p)) ps"
| "tval_ok s (TArr xs) = list_all (slot_ok s) xs"
| "tval_ok s (TPrim v) = True"

text \<open>The plain values of a list of properties.\<close>

definition vmap :: "store \<Rightarrow> (string \<times> slot) list \<Rightarrow> (string \<times> jsval) list" where
  "vmap s ps = map (\<lambda>p. (fst p, slot_value s (snd p))) ps"

subsection \<open>\<^verbatim>\<open>buildSanitizedFromSource\<close> on the store\<close>

text \<open>
  The same loop as \<^const>\<open>sanitize_loop\<close>, with \<^verbatim>\<open>out[k] = source[k]\<close> copying the slot
  (the reference, when the value is an array or an object) and the default, a fresh
  value, entering the store.
\<close>

fun sanitize_loop_ref ::
  "jsval \<Rightarrow> tval \<Rightarrow> string list \<Rightarrow> store \<Rightarrow> (string \<times> slot) list \<Rightarrow>
   error + (store \<times> (string \<times> slot) list)"
where
  "sanitize_loop_ref vars source [] s out = Inr (s, out)"
| "sanitize_loop_ref vars source (k # ks) s out =
     (if is_section (get_prop vars k) then sanitize_loop_ref vars source ks s out
      else if t_truthy source \<and> t_has_own source k
        then sanitize_loop_ref vars source ks s (AList.update k (t_get source k) out)
      else case defaultFor (get_prop vars k) of
             Inl e \<Rightarrow> Inl e
           | Inr v \<Rightarrow> (case new_slot s v of (s1, x) \<Rightarrow>
                         sanitize_loop_ref vars source ks s1 (AList.update k x out)))"

definition buildSanitizedFromSource_ref :: "jsval \<Rightarrow> tval \<Rightarrow> store \<Rightarrow> error + (store \<times> tval)" where
  "buildSanitizedFromSource_ref cv source s =
     (case sanitize_loop_ref (config_vars cv) source (own_keys (config_vars cv)) s [] of
        Inl e \<Rightarrow> Inl e
      | Inr (s1, out) \<Rightarrow> Inr (s1, TObj out))"

section \<open>The application state and its procedures\<close>

text \<open>
  \<^verbatim>\<open>sessionStorage\<close>: the stored texts, and whether the storage can be used at all
  (in a private mode every access throws).
\<close>

record session =
  items :: "(string \<times> string) list"
  available :: bool


definition setItem :: "session \<Rightarrow> string \<Rightarrow> string \<Rightarrow> error + session" where
  "setItem ss k v =
     (if available ss then Inr (ss\<lparr>items := AList.update k v (items ss)\<rparr>) else Inl StorageError)"

definition STORAGE_KEY_USER :: string where
  "STORAGE_KEY_USER = ''deesse_lastUser''"

definition STORAGE_KEY_DEFAULTS :: string where
  "STORAGE_KEY_DEFAULTS = ''deesse_defaults''"

text \<open>
  The globals \<^verbatim>\<open>config.variables\<close>, \<^verbatim>\<open>variables\<close>, \<^verbatim>\<open>defaults\<close> and
  \<^verbatim>\<open>currentSearchTerm\<close>, the store, the session storage, and the two texts the page
  shows (\<^verbatim>\<open>status.textContent\<close>, \<^verbatim>\<open>jsonPreview.value\<close>).
\<close>

record app =
  config_variables :: jsval
  heap :: store
  variables :: tval
  defaults :: tval
  storage :: session
  status :: string
  jsonPreview :: string
  currentSearchTerm :: string

text \<open>\<^verbatim>\<open>JSON.stringify(v)\<close> as an argument of \<^verbatim>\<open>setItem\<close>, which turns \<^verbatim>\<open>undefined\<close> into text.\<close>

definition json_text :: "jsval \<Rightarrow> string" where
  "json_text v = (case stringify_compact v of None \<Rightarrow> ''undefined'' | Some t \<Rightarrow> t)"

text \<open>\<^verbatim>\<open>saveUserState\<close> (lines 98--105) and \<^verbatim>\<open>saveDefaultsToStorage\<close> (lines 118--124): a failure is caught.\<close>

definition saveUserState :: "app \<Rightarrow> app" where
  "saveUserState st =
     (case setItem (storage st) STORAGE_KEY_USER (json_text (tval_value (heap st) (variables st))) of
        Inl e \<Rightarrow> st
      | Inr ss \<Rightarrow> st\<lparr>storage := ss\<rparr>)"

definition saveDefaultsToStorage :: "app \<Rightarrow> app" where
  "saveDefaultsToStorage st =
     (case setItem (storage st) STORAGE_KEY_DEFAULTS
             (json_text (tval_value (heap st) (defaults st))) of
        Inl e \<Rightarrow> st
      | Inr ss \<Rightarrow> st\<lparr>storage := ss\<rparr>)"


text \<open>\<^verbatim>\<open>updatePreview\<close> (lines 532--536).\<close>

definition updatePreview :: "app \<Rightarrow> error + app" where
  "updatePreview st =
     (case prettyPrintJSON (tval_value (heap st) (variables st)) of
        Inl e \<Rightarrow> Inl e
      | Inr s \<Rightarrow> Inr (saveUserState (st\<lparr>jsonPreview := s\<rparr>)))"

subsection \<open>Rendering: \<^verbatim>\<open>matchesSearch\<close>, \<^verbatim>\<open>makeControl\<close>, \<^verbatim>\<open>renderControlsForVariables\<close>\<close>

text \<open>\<^verbatim>\<open>s.toLowerCase()\<close> on 8-bit code units, and \<^verbatim>\<open>s.includes(t)\<close>.\<close>

definition lower_char :: "char \<Rightarrow> char" where
  "lower_char c =
     (let n = (of_char c :: nat)
      in if (65 \<le> n \<and> n \<le> 90) \<or> (192 \<le> n \<and> n \<le> 222 \<and> n \<noteq> 215) then char_of (n + 32) else c)"

definition toLowerCase :: "string \<Rightarrow> string" where
  "toLowerCase s = map lower_char s"

fun js_includes :: "string \<Rightarrow> string \<Rightarrow> bool" where
  "js_includes [] t = (t = [])"
| "js_includes (c # s) t = (take (length t) (c # s) = t \<or> js_includes s t)"

text \<open>
  \<^verbatim>\<open>desc && desc.label && desc.label.toLowerCase().includes(term)\<close>, for \<^verbatim>\<open>label\<close>
  and \<^verbatim>\<open>help\<close>: a truthy field that is no string has no \<^verbatim>\<open>toLowerCase\<close>.
\<close>

definition field_matches :: "jsval \<Rightarrow> string \<Rightarrow> string \<Rightarrow> error + bool" where
  "field_matches desc field term =
     (if \<not> truthy desc \<or> \<not> truthy (get_prop desc field) then Inr False
      else case get_prop desc field of
             JStr s \<Rightarrow> Inr (js_includes (toLowerCase s) term)
           | _ \<Rightarrow> Inl TypeError)"

text \<open>\<^verbatim>\<open>matchesSearch\<close> (lines 336--344), as the truth value its caller tests.\<close>

definition matchesSearch :: "string \<Rightarrow> jsval \<Rightarrow> string \<Rightarrow> error + bool" where
  "matchesSearch key desc searchTerm =
     (if searchTerm = [] then Inr True
      else if is_section desc then Inr False
      else case field_matches desc ''label'' (toLowerCase searchTerm) of
             Inl e \<Rightarrow> Inl e
           | Inr labelMatch \<Rightarrow>
               (case field_matches desc ''help'' (toLowerCase searchTerm) of
                  Inl e \<Rightarrow> Inl e
                | Inr helpMatch \<Rightarrow>
                    Inr (js_includes (toLowerCase key) (toLowerCase searchTerm)
                         \<or> labelMatch \<or> helpMatch)))"

text \<open>
  \<^verbatim>\<open>select.value = initial\<close> followed by reading \<^verbatim>\<open>select.value\<close>: the option with
  that value is selected, and when there is none, no option is and the value is empty.
\<close>

definition select_value :: "string list \<Rightarrow> string \<Rightarrow> string" where
  "select_value choices initial = (if initial \<in> set choices then initial else [])"

text \<open>The \<^verbatim>\<open>initial\<close> of lines 185--186.\<close>

definition choice_initial :: "jsval \<Rightarrow> jsval \<Rightarrow> string list \<Rightarrow> string" where
  "choice_initial v desc choices =
     (if v \<noteq> JUndefined \<and> v \<noteq> JNull \<and> js_String v \<noteq> [] then js_String v
      else if get_prop desc ''default'' \<noteq> JUndefined then js_String (get_prop desc ''default'')
      else hd choices)"

text \<open>
  \<^verbatim>\<open>makeControl(key, value, desc)\<close> (lines 135--334) builds the inputs of one variable.
  Its one effect on the state while rendering is line 188, in the branch of a
  \<^verbatim>\<open>choice\<close> with at least one choice: \<^verbatim>\<open>variables[key] = select.value\<close>.  The
  result is the text assigned, if any.
\<close>

definition makeControl_assigns :: "jsval \<Rightarrow> jsval \<Rightarrow> string option" where
  "makeControl_assigns v desc =
     (if truthy desc \<and> get_prop desc ''type'' = JStr ''boolean'' then None
      else if truthy desc \<and> get_prop desc ''type'' = JStr ''choice''
        then (let choices = getChoices desc
              in if choices = [] then None
                 else Some (select_value choices (choice_initial v desc choices)))
      else None)"

text \<open>
  The \<^verbatim>\<open>forEach\<close> of \<^verbatim>\<open>renderControlsForVariables\<close> (lines 371--405) on the
  variables: sections and variables that do not match the search are passed over.
  The descriptor of a key is \<^verbatim>\<open>vars[k] || {}\<close>; the value handed to
  \<^verbatim>\<open>makeControl\<close> is \<^verbatim>\<open>variables[k]\<close>, or the default when that is
  \<^verbatim>\<open>undefined\<close>.  \<^verbatim>\<open>makeControl\<close> ends with \<^verbatim>\<open>updateModifiedStatus\<close> (line
  330), which reads \<^verbatim>\<open>defaults[key]\<close>.
\<close>

definition var_desc :: "jsval \<Rightarrow> string \<Rightarrow> jsval" where
  "var_desc vars k = js_or (get_prop vars k) (JObj [])"

fun render_loop ::
  "jsval \<Rightarrow> string \<Rightarrow> store \<Rightarrow> tval \<Rightarrow> string list \<Rightarrow> tval \<Rightarrow> error + tval"
where
  "render_loop vars term s dflt [] t = Inr t"
| "render_loop vars term s dflt (k # ks) t =
     (let desc = var_desc vars k
      in if get_prop desc ''type'' = JStr ''section'' then render_loop vars term s dflt ks t
         else case matchesSearch k desc term of
                Inl e \<Rightarrow> Inl e
              | Inr False \<Rightarrow> render_loop vars term s dflt ks t
              | Inr True \<Rightarrow>
                  (case read_prop t k of
                     Inl e \<Rightarrow> Inl e
                   | Inr x \<Rightarrow>
                       (case (if slot_value s x \<noteq> JUndefined then Inr (slot_value s x)
                              else defaultFor desc) of
                          Inl e \<Rightarrow> Inl e
                        | Inr v \<Rightarrow>
                            (case (case makeControl_assigns v desc of
                                     None \<Rightarrow> Inr t
                                   | Some c \<Rightarrow> write_prop t k (Prim (JStr c))) of
                               Inl e \<Rightarrow> Inl e
                             | Inr t1 \<Rightarrow>
                                 (case read_prop dflt k of
                                    Inl e \<Rightarrow> Inl e
                                  | Inr d \<Rightarrow> render_loop vars term s dflt ks t1)))))"

definition renderControlsForVariables :: "app \<Rightarrow> error + app" where
  "renderControlsForVariables st =
     (case render_loop (config_vars (config_variables st)) (currentSearchTerm st) (heap st)
             (defaults st) (own_keys (config_vars (config_variables st))) (variables st) of
        Inl e \<Rightarrow> Inl e
      | Inr t \<Rightarrow> Inr (st\<lparr>variables := t\<rparr>))"

subsection \<open>\<^verbatim>\<open>loadExampleAndApply\<close> (lines 473--495)\<close>

text \<open>
  The body of the \<^verbatim>\<open>try\<close>, once the example document \<open>src\<close> has been fetched and
  parsed.
\<close>

definition load_example_try :: "jsval \<Rightarrow> app \<Rightarrow> error + app" where
  "load_example_try src st =
     (case new_tval (heap st) src of (s0, source) \<Rightarrow>
      case buildSanitizedFromSource_ref (config_variables st) source s0 of
        Inl e \<Rightarrow> Inl e
      | Inr (s1, v) \<Rightarrow>
      case buildSanitizedFromSource_ref (config_variables st) source s1 of
        Inl e \<Rightarrow> Inl e
      | Inr (s2, d) \<Rightarrow>
      case updatePreview (saveDefaultsToStorage (st\<lparr>heap := s2, variables := v, defaults := d\<rparr>)) of
        Inl e \<Rightarrow> Inl e
      | Inr st1 \<Rightarrow>
      case renderControlsForVariables st1 of
        Inl e \<Rightarrow> Inl e
      | Inr st2 \<Rightarrow> Inr (st2\<lparr>status := ''Example loaded (sanitized to configured keys).''\<rparr>))"

text \<open>The body of the \<^verbatim>\<open>catch\<close>.\<close>

definition load_example_catch :: "app \<Rightarrow> error + app" where
  "load_example_catch st =
     (case buildSanitizedFromSource_ref (config_variables st) (TPrim JNull) (heap st) of
        Inl e \<Rightarrow> Inl e
      | Inr (s1, v) \<Rightarrow>
      case buildSanitizedFromSource_ref (config_variables st) (TPrim JNull) s1 of
        Inl e \<Rightarrow> Inl e
      | Inr (s2, d) \<Rightarrow>
      case updatePreview (saveDefaultsToStorage (st\<lparr>heap := s2, variables := v, defaults := d\<rparr>)) of
        Inl e \<Rightarrow> Inl e
      | Inr st1 \<Rightarrow>
      case renderControlsForVariables st1 of
        Inl e \<Rightarrow> Inl e
      | Inr st2 \<Rightarrow> Inr (st2\<lparr>status := ''Example loaded.''\<rparr>))"

text \<open>
  \<open>fetched\<close> is the example document, or \<^const>\<open>None\<close> when the request or the parsing
  fails.  An exception inside the \<^verbatim>\<open>try\<close> also enters the \<^verbatim>\<open>catch\<close>, which assigns
  every global the \<^verbatim>\<open>try\<close> may have assigned; it is run on the state before the
  \<^verbatim>\<open>try\<close>.  \<^const>\<open>Inl\<close> is an exception that leaves the procedure.
\<close>

definition loadExampleAndApply :: "jsval option \<Rightarrow> app \<Rightarrow> error + app" where
  "loadExampleAndApply fetched st =
     (case fetched of
        None \<Rightarrow> load_example_catch st
      | Some src \<Rightarrow>
          (case load_example_try src st of
             Inl e \<Rightarrow> load_example_catch st
           | Inr st1 \<Rightarrow> Inr st1))"

subsection \<open>\<^verbatim>\<open>resetToDefaults\<close> (lines 497--510)\<close>


subsection \<open>The inputs of a \<^verbatim>\<open>number_array\<close> (lines 239--273)\<close>

text \<open>The \<^verbatim>\<open>count\<close> of line 240: the number of inputs, fixed when the control is built.\<close>

definition makeControl_count :: "jsval \<Rightarrow> jsval \<Rightarrow> jsval" where
  "makeControl_count desc v =
     js_or (get_prop desc ''count'')
           (case v of JArr xs \<Rightarrow> JNum (int (length xs)) | _ \<Rightarrow> JNum 2)"

text \<open>
  \<^verbatim>\<open>xs[idx] = v\<close>: inside the array the element is replaced; beyond its end the array
  grows, the elements in between being holes, which read as \<^verbatim>\<open>undefined\<close>.
\<close>

definition array_put :: "jsval list \<Rightarrow> nat \<Rightarrow> jsval \<Rightarrow> jsval list" where
  "array_put xs idx v =
     (if idx < length xs then xs[idx := v]
      else xs @ replicate (idx - length xs) JUndefined @ [v])"

text \<open>\<^verbatim>\<open>Array.isArray(x)\<close> for a slot.\<close>

definition slot_is_array :: "store \<Rightarrow> slot \<Rightarrow> bool" where
  "slot_is_array s x = (case slot_value s x of JArr xs \<Rightarrow> True | _ \<Rightarrow> False)"

text \<open>
  \<^verbatim>\<open>x[idx] = v\<close> for the slot \<open>x\<close>: the cell of an array or an object is written in
  place, \<^verbatim>\<open>null\<close> and \<^verbatim>\<open>undefined\<close> throw, on any other primitive nothing happens.
\<close>

definition write_element :: "store \<Rightarrow> slot \<Rightarrow> nat \<Rightarrow> jsval \<Rightarrow> error + store" where
  "write_element s x idx v =
     (case x of
        Ref a \<Rightarrow>
          (case cell s a of
             JArr xs \<Rightarrow> Inr (s[a := JArr (array_put xs idx v)])
           | JObj ps \<Rightarrow> Inr (s[a := JObj (obj_set ps (show_nat idx) v)])
           | _ \<Rightarrow> Inl TypeError)
      | Prim p \<Rightarrow> if p = JNull \<or> p = JUndefined then Inl TypeError else Inr s)"

text \<open>
  The \<^verbatim>\<open>input\<close> listener of the input with index \<open>idx\<close> of the control of \<open>key\<close>
  (lines 252--259).  \<open>typed\<close> is the number the input holds, \<^const>\<open>None\<close> when it is
  empty; \<open>cnt\<close> is the \<^verbatim>\<open>count\<close> of the control.  The last line,
  \<^verbatim>\<open>updateModifiedStatus\<close>, reads \<^verbatim>\<open>defaults[key]\<close>.
\<close>

definition array_input :: "string \<Rightarrow> jsval \<Rightarrow> nat \<Rightarrow> int option \<Rightarrow> app \<Rightarrow> error + app" where
  "array_input key cnt idx typed st =
     (case typed of
        None \<Rightarrow> Inr st
      | Some n \<Rightarrow>
      case read_prop (variables st) key of
        Inl e \<Rightarrow> Inl e
      | Inr x \<Rightarrow>
      case (if slot_is_array (heap st) x then Inr (heap st, variables st)
            else case Array_fill0 cnt of
                   Inl e \<Rightarrow> Inl e
                 | Inr arr \<Rightarrow>
                     (case new_slot (heap st) arr of (s1, y) \<Rightarrow>
                        (case write_prop (variables st) key y of
                           Inl e \<Rightarrow> Inl e
                         | Inr t \<Rightarrow> Inr (s1, t)))) of
        Inl e \<Rightarrow> Inl e
      | Inr (s1, t) \<Rightarrow>
      case write_element s1 (t_get t key) idx (JNum n) of
        Inl e \<Rightarrow> Inl e
      | Inr s2 \<Rightarrow>
      case updatePreview (st\<lparr>heap := s2, variables := t\<rparr>) of
        Inl e \<Rightarrow> Inl e
      | Inr st1 \<Rightarrow>
      case read_prop (defaults st1) key of
        Inl e \<Rightarrow> Inl e
      | Inr d \<Rightarrow> Inr st1)"

text \<open>\<^verbatim>\<open>desc.type === 'choice'\<close>.\<close>

definition is_choice :: "jsval \<Rightarrow> bool" where
  "is_choice desc = (get_prop desc ''type'' = JStr ''choice'')"

subsection \<open>States for the examples\<close>

text \<open>
  A page that has just been opened, with the schema
  \<^verbatim>\<open>{ k: {type: "number_array", count: 2} }\<close>, and the example document
  \<^verbatim>\<open>{ k: [1, 2] }\<close>.
\<close>

definition app0 :: app where
  "app0 = \<lparr>config_variables =
             JObj [(''k'', JObj [(''type'', JStr ''number_array''), (''count'', JNum 2)])],
           heap = [], variables = TObj [], defaults = TObj [],
           storage = \<lparr>items = [], available = True\<rparr>,
           status = [], jsonPreview = [], currentSearchTerm = []\<rparr>"

definition ex_doc :: jsval where
  "ex_doc = JObj [(''k'', JArr [JNum 1, JNum 2])]"






section \<open>Properties of the reconciliation loop\<close>



lemma sanitize_loop_step:
  "sanitize_loop vars source (k # ks) out =
     (if is_section (get_prop vars k) then sanitize_loop vars source ks out
      else case source_value vars source k of
             Inl e \<Rightarrow> Inl e
           | Inr v \<Rightarrow> sanitize_loop vars source ks (obj_set out k v))"
  by (simp add: source_value_def)

declare sanitize_loop.simps(2) [simp del]













lemma sanitize_idempotent_example:
  "buildSanitizedFromSource ex_schema (JObj [(''a'', JStr ''zz''), (''q'', JNum 1)])
     = Inr (JObj [(''a'', JStr ''zz''), (''c'', JStr ''u'')]) \<and>
   buildSanitizedFromSource ex_schema (JObj [(''a'', JStr ''zz''), (''c'', JStr ''u'')])
     = Inr (JObj [(''a'', JStr ''zz''), (''c'', JStr ''u'')])"
  by code_simp

section \<open>Properties of the descriptor model\<close>



text \<open>The two examples of the specification.\<close>

lemma getChoices_example_numbered:
  "getChoices (JObj [(''choice_2'', JStr ''B''), (''choice_1'', JStr ''A'')]) = [''A'', ''B'']"
  by code_simp

lemma getChoices_example_array:
  "getChoices (JObj [(''choices'', JArr [JStr ''X'', JStr ''Y'']), (''choice_1'', JStr ''A'')])
     = [''X'', ''Y'']"
  by code_simp

lemma getChoices_example_none:
  "getChoices (JObj [(''type'', JStr ''choice'')]) = []"
  by code_simp

subsection \<open>\<^verbatim>\<open>defaultFor\<close>, branch by branch\<close>



lemma defaultFor_by_type:
  assumes "truthy desc" and "get_prop desc ''default'' = JUndefined"
  shows "defaultFor desc =
     (if get_prop desc ''type'' = JStr ''boolean'' then Inr (JBool False)
      else if get_prop desc ''type'' = JStr ''number'' then Inr (JNum 0)
      else if get_prop desc ''type'' = JStr ''number_array''
        then Array_fill0 (js_or (get_prop desc ''count'') (JNum 2))
      else if get_prop desc ''type'' = JStr ''string'' then Inr (JStr [])
      else if get_prop desc ''type'' = JStr ''choice''
        then Inr (JStr (case getChoices desc of [] \<Rightarrow> [] | c # cs \<Rightarrow> c))
      else Inr JNull)"
  using assms by (simp add: defaultFor_def Let_def split: list.splits)

lemma Array_fill0_falsy:
  "\<not> truthy c \<Longrightarrow> Array_fill0 (js_or c (JNum 2)) = Inr (JArr [JNum 0, JNum 0])"
  by (simp add: js_or_def Array_fill0_def numeral_2_eq_2)

lemma Array_fill0_positive:
  "0 < n \<Longrightarrow> n < 4294967296 \<Longrightarrow>
   Array_fill0 (js_or (JNum n) (JNum 2)) = Inr (JArr (replicate (nat n) (JNum 0)))"
  by (simp add: js_or_def Array_fill0_def)

lemma Array_fill0_nonempty: "Array_fill0 (js_or c (JNum 2)) \<noteq> Inr (JArr [])"
  by (auto simp: js_or_def Array_fill0_def numeral_2_eq_2 split: jsval.splits)




text \<open>
  Claim C10.  For a \<^verbatim>\<open>number_array\<close> descriptor without a literal default, every
  falsy \<^verbatim>\<open>count\<close> (missing, \<^verbatim>\<open>null\<close>, \<open>0\<close>, ...) gives two zeros; a \<^verbatim>\<open>count\<close> of
  \<open>0\<close> never gives the empty array (no \<^verbatim>\<open>count\<close> does); a positive \<^verbatim>\<open>count\<close> that
  is an array length gives that many zeros.
\<close>

theorem falsy_count_gives_two:
  assumes "truthy desc" and "get_prop desc ''default'' = JUndefined"
    and "get_prop desc ''type'' = JStr ''number_array''"
  shows "(\<not> truthy (get_prop desc ''count'') \<longrightarrow>
            defaultFor desc = Inr (JArr [JNum 0, JNum 0])) \<and>
         (\<forall>n. get_prop desc ''count'' = JNum n \<and> 0 < n \<and> n < 4294967296 \<longrightarrow>
              defaultFor desc = Inr (JArr (replicate (nat n) (JNum 0)))) \<and>
         defaultFor desc \<noteq> Inr (JArr [])"
  using assms
  by (auto simp: defaultFor_by_type Array_fill0_falsy Array_fill0_positive Array_fill0_nonempty)

theorem falsy_count_gives_two_witness:
  "truthy (JObj [(''type'', JStr ''number_array''), (''count'', JNum 0)]) \<and>
   get_prop (JObj [(''type'', JStr ''number_array''), (''count'', JNum 0)]) ''default'' = JUndefined \<and>
   get_prop (JObj [(''type'', JStr ''number_array''), (''count'', JNum 0)]) ''type'' = JStr ''number_array'' \<and>
   \<not> truthy (get_prop (JObj [(''type'', JStr ''number_array''), (''count'', JNum 0)]) ''count'') \<and>
   defaultFor (JObj [(''type'', JStr ''number_array''), (''count'', JNum 0)]) = Inr (JArr [JNum 0, JNum 0]) \<and>
   get_prop (JObj [(''type'', JStr ''number_array''), (''count'', JNum 1)]) ''count'' = JNum 1 \<and>
   defaultFor (JObj [(''type'', JStr ''number_array''), (''count'', JNum 1)]) = Inr (JArr [JNum 0])"
proof -
  have a: "truthy (JObj [(''type'', JStr ''number_array''), (''count'', JNum 0)])" by simp
  have b: "get_prop (JObj [(''type'', JStr ''number_array''), (''count'', JNum 0)]) ''default'' = JUndefined"
    by code_simp
  have c: "get_prop (JObj [(''type'', JStr ''number_array''), (''count'', JNum 0)]) ''type'' = JStr ''number_array''"
    by code_simp
  have d: "\<not> truthy (get_prop (JObj [(''type'', JStr ''number_array''), (''count'', JNum 0)]) ''count'')"
    by code_simp
  have a': "truthy (JObj [(''type'', JStr ''number_array''), (''count'', JNum 1)])" by simp
  have b': "get_prop (JObj [(''type'', JStr ''number_array''), (''count'', JNum 1)]) ''default'' = JUndefined"
    by code_simp
  have c': "get_prop (JObj [(''type'', JStr ''number_array''), (''count'', JNum 1)]) ''type'' = JStr ''number_array''"
    by code_simp
  have d': "get_prop (JObj [(''type'', JStr ''number_array''), (''count'', JNum 1)]) ''count'' = JNum 1"
    by code_simp
  from falsy_count_gives_two [OF a b c] d
  have e: "defaultFor (JObj [(''type'', JStr ''number_array''), (''count'', JNum 0)]) = Inr (JArr [JNum 0, JNum 0])"
    by blast
  from falsy_count_gives_two [OF a' b' c'] d'
  have e': "defaultFor (JObj [(''type'', JStr ''number_array''), (''count'', JNum 1)]) = Inr (JArr [JNum 0])"
    by simp
  from a b c d e d' e' show ?thesis by simp
qed

section \<open>Properties of the serializer\<close>

text \<open>The display example of the specification, with an integer for the fraction.\<close>

lemma prettyPrintJSON_example:
  \<open>prettyPrintJSON (JObj [(''a'', JArr [JNum 0, JNum 1, JNum (- 5)]), (''b'', JBool True)])
     = Inr ''{\<newline>  "a": [0, 1, -5],\<newline>  "b": true\<newline>}''\<close>
  by code_simp

text \<open>An array with a nested array is not collapsed, the nested one is.\<close>

lemma prettyPrintJSON_nested:
  \<open>prettyPrintJSON (JObj [(''k'', JArr [JArr [JNum 1, JNum 2], JNum 3])])
     = Inr ''{\<newline>  "k": [\<newline>    [1, 2],\<newline>    3\<newline>  ]\<newline>}''\<close>
  by code_simp

text \<open>
  Claim C3 fails on the code.  The states \<^verbatim>\<open>{k: ["a,b"]}\<close> and \<^verbatim>\<open>{k: ["a, b"]}\<close> hold
  arrays of strings only and differ, and \<^verbatim>\<open>prettyPrintJSON\<close> gives the same text for
  both: \<^verbatim>\<open>/,\s*/g\<close> rewrites the comma inside the string as it rewrites the commas
  between elements.  The text is the JSON of the second state; no parser gives back the
  first.
\<close>

theorem prettyPrintJSON_rewrites_strings:
  \<open>prettyPrintJSON (JObj [(''k'', JArr [JStr ''a,b''])])
     = Inr ''{\<newline>  "k": ["a, b"]\<newline>}'' \<and>
   prettyPrintJSON (JObj [(''k'', JArr [JStr ''a, b''])])
     = Inr ''{\<newline>  "k": ["a, b"]\<newline>}'' \<and>
   JObj [(''k'', JArr [JStr ''a,b''])] \<noteq> JObj [(''k'', JArr [JStr ''a, b''])]\<close>
  by code_simp

section \<open>Properties of the store\<close>

text \<open>A top-level value and its plain value have the same properties.\<close>

lemma map_of_map_snd:
  "map_of (map (\<lambda>p. (fst p, f (snd p))) ps) k = map_option f (map_of ps k)"
  by (induction ps) auto

lemma all_own_tval_value:
  "all_own (tval_value s t) = map (\<lambda>p. (fst p, slot_value s (snd p))) (t_all_own t)"
proof (cases t)
  case (TObj ps)
  then show ?thesis by simp
next
  case (TArr xs)
  have "zip ks (map (slot_value s) xs) = map (\<lambda>p. (fst p, slot_value s (snd p))) (zip ks xs)" for ks :: "string list"
    by (simp add: zip_map2 case_prod_unfold)
  with TArr show ?thesis by simp
next
  case (TPrim v)
  then show ?thesis by (simp add: comp_def)
qed

lemma get_prop_tval_value: "get_prop (tval_value s t) k = slot_value s (t_get t k)"
  by (simp add: get_prop_def t_get_def all_own_tval_value map_of_map_snd split: option.splits)

lemma has_own_tval_value: "has_own (tval_value s t) k = t_has_own t k"
  by (simp add: has_own_def t_has_own_def all_own_tval_value map_of_map_snd)

lemma truthy_tval_value: "truthy (tval_value s t) = t_truthy t"
  by (cases t) auto

lemma new_slot_value:
  "new_slot s v = (s1, x) \<Longrightarrow> slot_value (s1 @ ext) x = v \<and> (\<exists>e. s1 = s @ e)"
  by (auto simp: new_slot_def cell_def nth_append split: jsval.splits)

lemma new_props_value:
  "new_props s ps = (s1, qs) \<Longrightarrow>
   map (\<lambda>p. (fst p, slot_value (s1 @ ext) (snd p))) qs = ps \<and> (\<exists>e. s1 = s @ e)"
proof (induction ps arbitrary: s s1 qs ext)
  case Nil
  then show ?case by simp
next
  case (Cons p ps)
  obtain sa x where a: "new_slot s (snd p) = (sa, x)" by (cases "new_slot s (snd p)")
  obtain sb xs where b: "new_props sa ps = (sb, xs)" by (cases "new_props sa ps")
  from Cons.prems a b have s1: "s1 = sb" and qs: "qs = (fst p, x) # xs" by auto
  from Cons.IH [OF b] obtain e where tail: "\<And>ext. map (\<lambda>p. (fst p, slot_value (sb @ ext) (snd p))) xs = ps"
    and sb: "sb = sa @ e" by blast
  from new_slot_value [OF a, of "e @ ext"] sb obtain e' where
    hd: "slot_value (sb @ ext) x = snd p" and sa: "sa = s @ e'" by auto
  from tail [of ext] hd s1 qs sb sa show ?case by auto
qed

lemma new_slots_value:
  "new_slots s vs = (s1, xs) \<Longrightarrow>
   map (slot_value (s1 @ ext)) xs = vs \<and> (\<exists>e. s1 = s @ e)"
proof (induction vs arbitrary: s s1 xs ext)
  case Nil
  then show ?case by simp
next
  case (Cons v vs)
  obtain sa x where a: "new_slot s v = (sa, x)" by (cases "new_slot s v")
  obtain sb ys where b: "new_slots sa vs = (sb, ys)" by (cases "new_slots sa vs")
  from Cons.prems a b have s1: "s1 = sb" and xs: "xs = x # ys" by auto
  from Cons.IH [OF b] obtain e where tail: "\<And>ext. map (slot_value (sb @ ext)) ys = vs"
    and sb: "sb = sa @ e" by blast
  from new_slot_value [OF a, of "e @ ext"] sb obtain e' where
    hd: "slot_value (sb @ ext) x = v" and sa: "sa = s @ e'" by auto
  from tail [of ext] hd s1 xs sb sa show ?case by auto
qed

lemma new_tval_value: "new_tval s v = (s1, t) \<Longrightarrow> tval_value s1 t = v"
proof (cases v)
  case (JObj ps)
  assume n: "new_tval s v = (s1, t)"
  obtain sa qs where a: "new_props s ps = (sa, qs)" by (cases "new_props s ps")
  with n JObj have "s1 = sa" "t = TObj qs" by (auto simp: new_tval_def)
  with new_props_value [OF a, of "[]"] JObj show ?thesis by simp
next
  case (JArr xs)
  assume n: "new_tval s v = (s1, t)"
  obtain sa ys where a: "new_slots s xs = (sa, ys)" by (cases "new_slots s xs")
  with n JArr have "s1 = sa" "t = TArr ys" by (auto simp: new_tval_def)
  with new_slots_value [OF a, of "[]"] JArr show ?thesis by simp
qed (auto simp: new_tval_def)

section \<open>Sanitizing on the store shares the slots of the source\<close>

lemma sanitize_loop_ref_untouched:
  "sanitize_loop_ref vars source ks s out = Inr (s1, r) \<Longrightarrow>
   k \<notin> set ks \<or> is_section (get_prop vars k) \<Longrightarrow> map_of r k = map_of out k"
proof (induction ks arbitrary: s out)
  case Nil
  then show ?case by simp
next
  case (Cons k' ks)
  from Cons.prems(2) have rest: "k \<notin> set ks \<or> is_section (get_prop vars k)" by auto
  from Cons.prems consider
      (skip) "is_section (get_prop vars k')" "sanitize_loop_ref vars source ks s out = Inr (s1, r)"
    | (assign) sa x where "\<not> is_section (get_prop vars k')"
        "sanitize_loop_ref vars source ks sa (AList.update k' x out) = Inr (s1, r)"
    by (auto split: if_splits sum.splits prod.splits)
  then show ?case
  proof cases
    case skip
    from Cons.IH [OF skip(2) rest] show ?thesis .
  next
    case assign
    with Cons.prems(2) have "k \<noteq> k'" by auto
    with Cons.IH [OF assign(2) rest] show ?thesis by (simp add: update_conv')
  qed
qed

lemma sanitize_loop_ref_shares:
  "sanitize_loop_ref vars source ks s out = Inr (s1, r) \<Longrightarrow> k \<in> set ks \<Longrightarrow>
   \<not> is_section (get_prop vars k) \<Longrightarrow> t_truthy source \<Longrightarrow> t_has_own source k \<Longrightarrow>
   map_of r k = Some (t_get source k)"
proof (induction ks arbitrary: s out)
  case Nil
  then show ?case by simp
next
  case (Cons k' ks)
  show ?case
  proof (cases "k \<in> set ks")
    case True
    from Cons.prems(1) consider
        (skip) "sanitize_loop_ref vars source ks s out = Inr (s1, r)"
      | (assign) sa x where
          "sanitize_loop_ref vars source ks sa (AList.update k' x out) = Inr (s1, r)"
      by (auto split: if_splits sum.splits prod.splits)
    then show ?thesis
      using Cons.IH True Cons.prems(3,4,5) by cases blast+
  next
    case False
    with Cons.prems(2) have eq: "k = k'" by simp
    with Cons.prems have run: "sanitize_loop_ref vars source ks s
        (AList.update k (t_get source k) out) = Inr (s1, r)"
      by simp
    from sanitize_loop_ref_untouched [OF run, of k] False
    show ?thesis by (simp add: update_conv')
  qed
qed

lemma sanitized_ref_shares:
  assumes "buildSanitizedFromSource_ref cv source s = Inr (s1, t)"
    and "t_truthy source" and "t_has_own source k"
    and "k \<in> set (own_keys (config_vars cv))"
    and "\<not> is_section (get_prop (config_vars cv) k)"
  shows "t_get t k = t_get source k"
proof -
  from assms(1) obtain r where
    r: "sanitize_loop_ref (config_vars cv) source (own_keys (config_vars cv)) s [] = Inr (s1, r)"
    and t: "t = TObj r"
    by (auto simp: buildSanitizedFromSource_ref_def split: sum.splits)
  from sanitize_loop_ref_shares [OF r assms(4,5,2,3)] t show ?thesis
    by (simp add: t_get_def)
qed

section \<open>The loop on the store computes the values of the loop on values\<close>

text \<open>
  Cells are only ever added at the end of the store, so a slot that is in the store
  keeps its value.
\<close>

lemma slot_value_append: "slot_ok s x \<Longrightarrow> slot_value (s @ e) x = slot_value s x"
  by (cases x) (auto simp: slot_ok_def cell_def nth_append)

lemma slot_ok_append: "slot_ok s x \<Longrightarrow> slot_ok (s @ e) x"
  by (cases x) (auto simp: slot_ok_def)

lemma tval_value_append: "tval_ok s t \<Longrightarrow> tval_value (s @ e) t = tval_value s t"
  by (cases t) (auto simp: list_all_iff slot_value_append)

lemma tval_ok_append: "tval_ok s t \<Longrightarrow> tval_ok (s @ e) t"
  by (cases t) (auto simp: list_all_iff slot_ok_append)

lemma t_get_ok: "tval_ok s t \<Longrightarrow> slot_ok s (t_get t k)"
proof (cases "map_of (t_all_own t) k")
  case None
  then show ?thesis by (simp add: t_get_def slot_ok_def)
next
  case (Some x)
  assume ok: "tval_ok s t"
  from Some have mem: "(k, x) \<in> set (t_all_own t)" by (rule map_of_SomeD)
  have "slot_ok s x"
  proof (cases t)
    case (TObj ps)
    with ok mem show ?thesis by (auto simp: list_all_iff)
  next
    case (TArr xs)
    with ok mem show ?thesis
      by (auto simp: list_all_iff slot_ok_def dest: set_zip_rightD)
  next
    case (TPrim v)
    with mem show ?thesis by (auto simp: slot_ok_def)
  qed
  with Some show ?thesis by (simp add: t_get_def)
qed

lemma new_slot_ok:
  "new_slot s v = (s1, x) \<Longrightarrow> slot_ok s1 x \<and> slot_value s1 x = v \<and> (\<exists>e. s1 = s @ e)"
  by (auto simp: new_slot_def slot_ok_def cell_def split: jsval.splits)

lemma new_props_ok:
  "new_props s ps = (s1, qs) \<Longrightarrow> list_all (\<lambda>p. slot_ok (s1 @ ext) (snd p)) qs"
proof (induction ps arbitrary: s s1 qs ext)
  case Nil
  then show ?case by simp
next
  case (Cons p ps)
  obtain sa x where a: "new_slot s (snd p) = (sa, x)" by (cases "new_slot s (snd p)")
  obtain sb xs where b: "new_props sa ps = (sb, xs)" by (cases "new_props sa ps")
  from Cons.prems a b have s1: "s1 = sb" and qs: "qs = (fst p, x) # xs" by auto
  from new_props_value [OF b, of "[]"] obtain e where sb: "sb = sa @ e" by blast
  from new_slot_ok [OF a] have "slot_ok sa x" by simp
  then have "slot_ok (sb @ ext) x" using sb by (simp add: slot_ok_append)
  with Cons.IH [OF b, of ext] s1 qs show ?case by simp
qed

lemma new_slots_ok:
  "new_slots s vs = (s1, xs) \<Longrightarrow> list_all (slot_ok (s1 @ ext)) xs"
proof (induction vs arbitrary: s s1 xs ext)
  case Nil
  then show ?case by simp
next
  case (Cons v vs)
  obtain sa x where a: "new_slot s v = (sa, x)" by (cases "new_slot s v")
  obtain sb ys where b: "new_slots sa vs = (sb, ys)" by (cases "new_slots sa vs")
  from Cons.prems a b have s1: "s1 = sb" and xs: "xs = x # ys" by auto
  from new_slots_value [OF b, of "[]"] obtain e where sb: "sb = sa @ e" by blast
  from new_slot_ok [OF a] have "slot_ok sa x" by simp
  then have "slot_ok (sb @ ext) x" using sb by (simp add: slot_ok_append)
  with Cons.IH [OF b, of ext] s1 xs show ?case by simp
qed

lemma new_tval_ok: "new_tval s v = (s1, t) \<Longrightarrow> tval_ok s1 t"
proof (cases v)
  case (JObj ps)
  assume n: "new_tval s v = (s1, t)"
  obtain sa qs where a: "new_props s ps = (sa, qs)" by (cases "new_props s ps")
  with n JObj have "s1 = sa" "t = TObj qs" by (auto simp: new_tval_def)
  with new_props_ok [OF a, of "[]"] show ?thesis by simp
next
  case (JArr xs)
  assume n: "new_tval s v = (s1, t)"
  obtain sa ys where a: "new_slots s xs = (sa, ys)" by (cases "new_slots s xs")
  with n JArr have "s1 = sa" "t = TArr ys" by (auto simp: new_tval_def)
  with new_slots_ok [OF a, of "[]"] show ?thesis by simp
qed (auto simp: new_tval_def)

lemma vmap_update: "vmap s (AList.update k x ps) = obj_set (vmap s ps) k (slot_value s x)"
  by (induction ps) (auto simp: vmap_def obj_set_def)

lemma vmap_append:
  "list_all (\<lambda>p. slot_ok s (snd p)) ps \<Longrightarrow> vmap (s @ e) ps = vmap s ps"
  by (auto simp: vmap_def list_all_iff slot_value_append)

lemma update_ok:
  "list_all (\<lambda>p. slot_ok s (snd p)) ps \<Longrightarrow> slot_ok s x \<Longrightarrow>
   list_all (\<lambda>p. slot_ok s (snd p)) (AList.update k x ps)"
  by (induction ps) auto

lemma all_ok_append:
  "list_all (\<lambda>p. slot_ok s (snd p)) ps \<Longrightarrow> list_all (\<lambda>p. slot_ok (s @ e) (snd p)) ps"
  by (auto simp: list_all_iff slot_ok_append)

lemma sanitize_loop_ref_refines:
  assumes "tval_ok s source" and "list_all (\<lambda>p. slot_ok s (snd p)) out"
  shows "case sanitize_loop_ref vars source ks s out of
           Inl e \<Rightarrow> sanitize_loop vars (tval_value s source) ks (vmap s out) = Inl e
         | Inr (s1, r) \<Rightarrow>
             (\<exists>e. s1 = s @ e) \<and> list_all (\<lambda>p. slot_ok s1 (snd p)) r \<and>
             sanitize_loop vars (tval_value s source) ks (vmap s out) = Inr (vmap s1 r)"
  using assms
proof (induction ks arbitrary: s out)
  case Nil
  then show ?case by simp
next
  case (Cons k ks)
  show ?case
  proof (cases "is_section (get_prop vars k)")
    case True
    with Cons.IH [OF Cons.prems] show ?thesis
      by (auto simp: sanitize_loop_step split: sum.splits prod.splits)
  next
    case ns: False
    show ?thesis
    proof (cases "t_truthy source \<and> t_has_own source k")
      case True
      let ?x = "t_get source k"
      have okx: "slot_ok s ?x" using Cons.prems(1) by (rule t_get_ok)
      have ok': "list_all (\<lambda>p. slot_ok s (snd p)) (AList.update k ?x out)"
        using Cons.prems(2) okx by (rule update_ok)
      have sv: "source_value vars (tval_value s source) k = Inr (slot_value s ?x)"
        using True
        by (simp add: source_value_def truthy_tval_value has_own_tval_value get_prop_tval_value)
      from Cons.IH [OF Cons.prems(1) ok'] True ns sv show ?thesis
        by (auto simp: sanitize_loop_step vmap_update split: sum.splits prod.splits)
    next
      case False
      then have sv: "source_value vars (tval_value s source) k = defaultFor (get_prop vars k)"
        by (auto simp: source_value_def truthy_tval_value has_own_tval_value)
      show ?thesis
      proof (cases "defaultFor (get_prop vars k)")
        case (Inl e)
        with False ns sv show ?thesis by (auto simp: sanitize_loop_step)
      next
        case (Inr v)
        obtain sa x where a: "new_slot s v = (sa, x)" by (cases "new_slot s v")
        from new_slot_ok [OF a] obtain e where
          okx: "slot_ok sa x" and vx: "slot_value sa x = v" and sa: "sa = s @ e" by blast
        have src': "tval_ok sa source"
          using Cons.prems(1) sa by (simp add: tval_ok_append)
        have ok': "list_all (\<lambda>p. slot_ok sa (snd p)) (AList.update k x out)"
          using all_ok_append [OF Cons.prems(2), of e] okx sa by (simp add: update_ok)
        have tv: "tval_value sa source = tval_value s source"
          using Cons.prems(1) sa by (simp add: tval_value_append)
        have vm: "vmap sa (AList.update k x out) = obj_set (vmap s out) k v"
          using vmap_append [OF Cons.prems(2), of e] vx sa by (simp add: vmap_update)
        from Cons.IH [OF src' ok']
        have "case sanitize_loop_ref vars source ks sa (AList.update k x out) of
           Inl e \<Rightarrow> sanitize_loop vars (tval_value s source) ks (obj_set (vmap s out) k v) = Inl e
         | Inr (s1, r) \<Rightarrow>
             (\<exists>e. s1 = sa @ e) \<and> list_all (\<lambda>p. slot_ok s1 (snd p)) r \<and>
             sanitize_loop vars (tval_value s source) ks (obj_set (vmap s out) k v) = Inr (vmap s1 r)"
          unfolding tv vm .
        with False ns sv Inr a sa show ?thesis
          by (auto simp: sanitize_loop_step split: sum.splits prod.splits)
      qed
    qed
  qed
qed

lemma buildSanitizedFromSource_ref_refines:
  assumes "tval_ok s source"
  shows "case buildSanitizedFromSource_ref cv source s of
           Inl e \<Rightarrow> buildSanitizedFromSource cv (tval_value s source) = Inl e
         | Inr (s1, t) \<Rightarrow>
             buildSanitizedFromSource cv (tval_value s source) = Inr (tval_value s1 t)"
  using sanitize_loop_ref_refines [OF assms, of "[]" "config_vars cv" "own_keys (config_vars cv)"]
  by (auto simp: buildSanitizedFromSource_ref_def buildSanitizedFromSource_def vmap_def
           split: sum.splits)

text \<open>
  For a fresh document, \<^const>\<open>buildSanitizedFromSource_ref\<close> returns a state whose plain
  value is the result of \<^const>\<open>buildSanitizedFromSource\<close>, and throws when that throws:
  the properties of the loop on values (key set, copied values, idempotence) are
  properties of the state in the store.
\<close>

lemma sanitize_fresh_document:
  assumes "new_tval s src = (s0, source)"
  shows "case buildSanitizedFromSource_ref cv source s0 of
           Inl e \<Rightarrow> buildSanitizedFromSource cv src = Inl e
         | Inr (s1, t) \<Rightarrow> buildSanitizedFromSource cv src = Inr (tval_value s1 t)"
  using buildSanitizedFromSource_ref_refines [OF new_tval_ok [OF assms], of cv]
  unfolding new_tval_value [OF assms] .

section \<open>Properties of rendering\<close>

text \<open>
  Rendering assigns only to variables of type \<^verbatim>\<open>choice\<close>, and what it assigns is the
  value of the select control: one of the choices, or the empty text.
\<close>

lemma makeControl_assigns_choice:
  "makeControl_assigns v desc = Some c \<Longrightarrow>
   is_choice desc \<and> (c = [] \<or> c \<in> set (getChoices desc))"
  by (auto simp: makeControl_assigns_def is_choice_def select_value_def Let_def split: if_splits)

lemma write_prop_get:
  "write_prop t k x = Inr t1 \<Longrightarrow>
   (t_get t1 k = x \<or> t1 = t) \<and> (\<forall>k'. k' \<noteq> k \<longrightarrow> t_get t1 k' = t_get t k')"
  by (auto simp: write_prop_def t_get_def update_conv' split: tval.splits if_splits)

lemma render_loop_frame:
  "render_loop vars term s dflt ks t = Inr t1 \<Longrightarrow>
   k \<notin> set ks \<or> \<not> is_choice (var_desc vars k) \<Longrightarrow>
   t_get t1 k = t_get t k"
proof (induction ks arbitrary: t)
  case Nil
  then show ?case by simp
next
  case (Cons k' ks)
  let ?desc = "var_desc vars k'"
  from Cons.prems(2) have rest: "k \<notin> set ks \<or> \<not> is_choice (var_desc vars k)"
    by auto
  from Cons.prems(1) consider
      (skip) "render_loop vars term s dflt ks t = Inr t1"
    | (assign) v c t2 where "makeControl_assigns v ?desc = Some c"
        "write_prop t k' (Prim (JStr c)) = Inr t2" "render_loop vars term s dflt ks t2 = Inr t1"
    by (auto simp: Let_def split: if_splits sum.splits bool.splits option.splits)
  then show ?case
  proof cases
    case skip
    from Cons.IH [OF skip rest] show ?thesis .
  next
    case assign
    from makeControl_assigns_choice [OF assign(1)] have "is_choice ?desc" by simp
    with Cons.prems(2) have "k \<noteq> k'" by auto
    with write_prop_get [OF assign(2)] have "t_get t2 k = t_get t k" by simp
    with Cons.IH [OF assign(3) rest] show ?thesis by simp
  qed
qed


lemma stringify_indent_object: "stringify_indent ind (JObj ps) \<noteq> None"
  by (simp add: Let_def)

lemma updatePreview_fields:
  "updatePreview st = Inr st1 \<Longrightarrow>
   variables st1 = variables st \<and> heap st1 = heap st \<and> status st1 = status st \<and>
   defaults st1 = defaults st \<and> config_variables st1 = config_variables st \<and>
   currentSearchTerm st1 = currentSearchTerm st"
  by (auto simp: updatePreview_def saveUserState_def split: sum.splits)

lemma renderControls_fields:
  "renderControlsForVariables st = Inr st1 \<Longrightarrow>
   heap st1 = heap st \<and> status st1 = status st \<and> defaults st1 = defaults st \<and>
   render_loop (config_vars (config_variables st)) (currentSearchTerm st) (heap st)
     (defaults st) (own_keys (config_vars (config_variables st))) (variables st)
     = Inr (variables st1)"
  by (auto simp: renderControlsForVariables_def split: sum.splits)


section \<open>Properties of \<^verbatim>\<open>resetToDefaults\<close>\<close>







lemma tval_value_TObj: "\<exists>ps. tval_value s (TObj qs) = JObj ps"
  by simp









section \<open>Properties of the array inputs\<close>

text \<open>
  The \<^verbatim>\<open>count\<close> of a control is the \<^verbatim>\<open>count\<close> of the descriptor when that is
  truthy, else the length of the array the control was built for, else \<open>2\<close>.
\<close>

lemma makeControl_count_configured:
  "get_prop desc ''count'' = JNum n \<Longrightarrow> n \<noteq> 0 \<Longrightarrow> makeControl_count desc v = JNum n"
  by (simp add: makeControl_count_def js_or_def)

lemma makeControl_count_fallback:
  "\<not> truthy (get_prop desc ''count'') \<Longrightarrow>
   makeControl_count desc v = (case v of JArr xs \<Rightarrow> JNum (int (length xs)) | _ \<Rightarrow> JNum 2)"
  by (simp add: makeControl_count_def js_or_def)



section \<open>Properties of \<^verbatim>\<open>loadExampleAndApply\<close>\<close>

text \<open>
  After a successful load, the state and the defaults hold, for every key that the
  example owns (sections and variables of type \<^verbatim>\<open>choice\<close> apart), the same slot: for
  an array of the example, the same reference.
\<close>

lemma load_example_try_shares:
  assumes "load_example_try (JObj ps) st = Inr st1"
    and "k \<in> fst ` set ps"
    and "k \<in> set (own_keys (config_vars (config_variables st)))"
    and "\<not> is_section (get_prop (config_vars (config_variables st)) k)"
    and "\<not> is_choice (var_desc (config_vars (config_variables st)) k)"
  shows "t_get (variables st1) k = t_get (defaults st1) k"
proof -
  obtain s0 source where n: "new_tval (heap st) (JObj ps) = (s0, source)"
    by (cases "new_tval (heap st) (JObj ps)")
  from assms(1) n obtain s1 v s2 d sta stb where
    b1: "buildSanitizedFromSource_ref (config_variables st) source s0 = Inr (s1, v)"
    and b2: "buildSanitizedFromSource_ref (config_variables st) source s1 = Inr (s2, d)"
    and up: "updatePreview (saveDefaultsToStorage (st\<lparr>heap := s2, variables := v, defaults := d\<rparr>)) = Inr sta"
    and re: "renderControlsForVariables sta = Inr stb"
    and st1: "st1 = stb\<lparr>status := ''Example loaded (sanitized to configured keys).''\<rparr>"
    by (auto simp: load_example_try_def split: sum.splits prod.splits)
  have val: "tval_value s0 source = JObj ps" by (rule new_tval_value [OF n])
  have tr: "t_truthy source"
    using truthy_tval_value [of s0 source] val by simp
  have own: "t_has_own source k"
    using has_own_tval_value [of s0 source k] val assms(2)
    by (simp add: has_own_def map_of_eq_None_iff)
  from sanitized_ref_shares [OF b1 tr own assms(3,4)] sanitized_ref_shares [OF b2 tr own assms(3,4)]
  have vd: "t_get v k = t_get d k" by simp
  have sd: "variables (saveDefaultsToStorage (st\<lparr>heap := s2, variables := v, defaults := d\<rparr>)) = v"
    "defaults (saveDefaultsToStorage (st\<lparr>heap := s2, variables := v, defaults := d\<rparr>)) = d"
    "config_variables (saveDefaultsToStorage (st\<lparr>heap := s2, variables := v, defaults := d\<rparr>))
       = config_variables st"
    by (auto simp: saveDefaultsToStorage_def split: sum.splits)
  from updatePreview_fields [OF up] sd have a: "variables sta = v" "defaults sta = d"
    "config_variables sta = config_variables st" by simp_all
  from renderControls_fields [OF re] a have
    loop: "render_loop (config_vars (config_variables st)) (currentSearchTerm sta) (heap sta)
       (defaults sta) (own_keys (config_vars (config_variables st))) v = Inr (variables stb)"
    and dd: "defaults stb = d" by simp_all
  from render_loop_frame [OF loop, of k] assms(5) have "t_get (variables stb) k = t_get v k"
    by simp
  with vd dd st1 show ?thesis by simp
qed

text \<open>
  Claim C5 fails on the code.  With the schema \<^verbatim>\<open>{k: {type: "number_array", count: 2}}\<close>
  and the example \<^verbatim>\<open>{k: [1, 2]}\<close> the load succeeds, \<^verbatim>\<open>variables.k\<close> and
  \<^verbatim>\<open>defaults.k\<close> are the same reference, and editing the first input of \<^verbatim>\<open>k\<close> to
  \<open>9\<close> changes the defaults from \<^verbatim>\<open>{k: [1, 2]}\<close> to \<^verbatim>\<open>{k: [9, 2]}\<close>.
\<close>

theorem load_example_shares_arrays:
  "(case loadExampleAndApply (Some ex_doc) app0 of
      Inl e \<Rightarrow> None
    | Inr st \<Rightarrow>
        (case array_input ''k''
                (makeControl_count (get_prop (config_variables st) ''k'')
                   (slot_value (heap st) (t_get (variables st) ''k'')))
                0 (Some 9) st of
           Inl e \<Rightarrow> None
         | Inr st2 \<Rightarrow>
             Some (status st, t_get (variables st) ''k'', t_get (defaults st) ''k'',
                   tval_value (heap st) (defaults st),
                   tval_value (heap st2) (variables st2),
                   tval_value (heap st2) (defaults st2))))
   = Some (''Example loaded (sanitized to configured keys).'', Ref 0, Ref 0,
           JObj [(''k'', JArr [JNum 1, JNum 2])],
           JObj [(''k'', JArr [JNum 9, JNum 2])],
           JObj [(''k'', JArr [JNum 9, JNum 2])])"
  by code_simp

text \<open>
  When the example cannot be loaded, \<^verbatim>\<open>defaultFor\<close> builds a new array for each of the
  two objects, and the same edit leaves the defaults as they were.
\<close>

lemma load_example_catch_independent:
  "(case loadExampleAndApply None app0 of
      Inl e \<Rightarrow> None
    | Inr st \<Rightarrow>
        (case array_input ''k''
                (makeControl_count (get_prop (config_variables st) ''k'')
                   (slot_value (heap st) (t_get (variables st) ''k'')))
                0 (Some 9) st of
           Inl e \<Rightarrow> None
         | Inr st2 \<Rightarrow>
             Some (status st, t_get (variables st) ''k'', t_get (defaults st) ''k'',
                   tval_value (heap st2) (variables st2),
                   tval_value (heap st2) (defaults st2))))
   = Some (''Example loaded.'', Ref 0, Ref 1,
           JObj [(''k'', JArr [JNum 9, JNum 0])],
           JObj [(''k'', JArr [JNum 0, JNum 0])])"
  by code_simp

end
